theory Spec2Isabelle
  imports Main "HOL-Library.Word" "HOL-Library.AList" "HOL-Library.Multiset"
begin


section \<open>Columnar data: types, values, columns, tables\<close>

text \<open>
  The re-bucketing module \<^verbatim>\<open>hl_ctxs_to_parquet.py\<close> works on Arrow tables. A column
  has a logical type and a list of slots, a slot being a value or null (\<open>None\<close>).
  Timestamps and dates are stored as integers (units since the epoch, days since the
  epoch), 32-bit floats as their bit pattern.
\<close>

datatype tunit = UnitS | UnitMs | UnitUs | UnitNs

datatype dtype =
    TNull
  | TBool
  | TInt64
  | TFloat32
  | TFloat64
  | TString
  | TDate32
  | TDate64
  | TTimestamp tunit "string option"

datatype val = VStr string | VInt int | VBool bool | VFloat32 "32 word"

record column =
  ctype :: dtype
  cvals :: "val option list"

record table =
  tcols :: "(string \<times> column) list"
  num_rows :: nat

type_synonym schema = "(string \<times> dtype) list"

datatype error =
    FileNotFoundError
  | KeyError
  | ValueError
  | TypeError
  | OSError
  | ArrowInvalid
  | ArrowNotImplementedError

definition is_string :: "dtype \<Rightarrow> bool" where
  "is_string t = (t = TString)"

fun is_timestamp :: "dtype \<Rightarrow> bool" where
  "is_timestamp (TTimestamp u z) = True"
| "is_timestamp t = False"

definition is_date32 :: "dtype \<Rightarrow> bool" where
  "is_date32 t = (t = TDate32)"

definition is_date :: "dtype \<Rightarrow> bool" where
  "is_date t = (t = TDate32 \<or> t = TDate64)"

fun has_tz :: "dtype \<Rightarrow> bool" where
  "has_tz (TTimestamp u (Some z)) = True"
| "has_tz t = False"

definition timestamp_ns :: dtype where
  "timestamp_ns = TTimestamp UnitNs None"

text \<open>\<^verbatim>\<open>DEFAULT_SCHEMA\<close> of the module.\<close>

definition DEFAULT_SCHEMA :: schema where
  "DEFAULT_SCHEMA =
    [(''time'', TTimestamp UnitNs None),
     (''coin'', TString),
     (''funding'', TFloat32),
     (''open_interest'', TFloat32),
     (''prev_day_px'', TFloat32),
     (''day_ntl_vlm'', TFloat32),
     (''premium'', TFloat32),
     (''oracle_px'', TFloat32),
     (''mark_px'', TFloat32),
     (''mid_px'', TFloat32),
     (''impact_bid_px'', TFloat32),
     (''impact_ask_px'', TFloat32),
     (''date'', TDate32)]"

text \<open>\<^verbatim>\<open>pa.nulls(n, type=t)\<close>: an all-null column.\<close>

definition nulls :: "nat \<Rightarrow> dtype \<Rightarrow> column" where
  "nulls n t = \<lparr>ctype = t, cvals = replicate n None\<rparr>"

definition is_valid :: "column \<Rightarrow> bool list" where
  "is_valid c = map (\<lambda>v. v \<noteq> None) (cvals c)"

definition schema_names :: "table \<Rightarrow> string list" where
  "schema_names t = map fst (tcols t)"

text \<open>
  \<^verbatim>\<open>tbl[name]\<close>: the column of that name; \<^verbatim>\<open>KeyError\<close> when no field or more
  than one field has the name.
\<close>

definition column_of :: "table \<Rightarrow> string \<Rightarrow> error + column" where
  "column_of t n =
     (case filter (\<lambda>p. fst p = n) (tcols t) of
        [p] \<Rightarrow> Inr (snd p)
      | _ \<Rightarrow> Inl KeyError)"

definition table_schema :: "table \<Rightarrow> schema" where
  "table_schema t = map (\<lambda>p. (fst p, ctype (snd p))) (tcols t)"

subsection \<open>The cast kernels of the Arrow library\<close>

text \<open>
  The module calls Arrow's \<^verbatim>\<open>pc.cast\<close> and \<^verbatim>\<open>pc.if_else\<close>; the library is not
  part of the repository, so its conversion table is a parameter of the model.
  \<open>cast_kernel lib a b\<close> is \<open>None\<close> when Arrow has no conversion from \<open>a\<close> to \<open>b\<close>
  (\<^verbatim>\<open>ArrowNotImplementedError\<close>); otherwise it converts one value, \<open>None\<close> meaning
  that this value is not representable in \<open>b\<close> (\<^verbatim>\<open>ArrowInvalid\<close> under the default
  safe cast). \<open>common_type lib a b\<close> is the type \<^verbatim>\<open>if_else\<close> promotes its two
  branches to, \<open>None\<close> when it has no kernel for the pair. \<open>utc_offset lib z t\<close> is
  the offset in seconds of the time zone \<open>z\<close> at \<open>t\<close> seconds since the epoch (the
  time zone database).
\<close>

record arrow =
  cast_kernel :: "dtype \<Rightarrow> dtype \<Rightarrow> (val \<Rightarrow> val option) option"
  common_type :: "dtype \<Rightarrow> dtype \<Rightarrow> dtype option"
  utc_offset :: "string \<Rightarrow> int \<Rightarrow> int"

definition convertible :: "(val \<Rightarrow> val option) \<Rightarrow> val option \<Rightarrow> bool" where
  "convertible f v = (case v of None \<Rightarrow> True | Some x \<Rightarrow> f x \<noteq> None)"

definition convert :: "(val \<Rightarrow> val option) \<Rightarrow> val option \<Rightarrow> val option" where
  "convert f v = (case v of None \<Rightarrow> None | Some x \<Rightarrow> f x)"

text \<open>
  \<^verbatim>\<open>pc.cast(col, t)\<close>: nulls stay null, every value is converted, and one value
  that does not convert fails the whole column.
\<close>

definition cast :: "arrow \<Rightarrow> column \<Rightarrow> dtype \<Rightarrow> error + column" where
  "cast lib c t =
     (case cast_kernel lib (ctype c) t of
        None \<Rightarrow> Inl ArrowNotImplementedError
      | Some f \<Rightarrow>
          if list_all (convertible f) (cvals c)
          then Inr \<lparr>ctype = t, cvals = map (convert f) (cvals c)\<rparr>
          else Inl ArrowInvalid)"

text \<open>
  \<^verbatim>\<open>pc.if_else(mask, a, b)\<close> on a boolean mask without nulls: both branches are
  brought to their common type, then slot \<open>i\<close> is taken from \<open>a\<close> where the mask
  holds and from \<open>b\<close> elsewhere.
\<close>

definition if_else :: "arrow \<Rightarrow> bool list \<Rightarrow> column \<Rightarrow> column \<Rightarrow> error + column" where
  "if_else lib msk a b =
     (case common_type lib (ctype a) (ctype b) of
        None \<Rightarrow> Inl ArrowNotImplementedError
      | Some t \<Rightarrow>
          (case (if ctype a = t then Inr a else cast lib a t) of
             Inl e \<Rightarrow> Inl e
           | Inr a' \<Rightarrow>
               (case (if ctype b = t then Inr b else cast lib b t) of
                  Inl e \<Rightarrow> Inl e
                | Inr b' \<Rightarrow>
                    Inr \<lparr>ctype = t,
                         cvals = map (\<lambda>(m, x, y). if m then x else y)
                                     (zip msk (zip (cvals a') (cvals b')))\<rparr>)))"

section \<open>Parsing timestamps and dates from strings\<close>

text \<open>The civil calendar: days since 1970-01-01 of a year, month and day.\<close>

definition days_from_civil :: "int \<Rightarrow> int \<Rightarrow> int \<Rightarrow> int" where
  "days_from_civil y m d =
     (let y' = (if m \<le> 2 then y - 1 else y);
          era = y' div 400;
          yoe = y' - era * 400;
          doy = (153 * (if m > 2 then m - 3 else m + 9) + 2) div 5 + d - 1;
          doe = yoe * 365 + yoe div 4 - yoe div 100 + doy
      in era * 146097 + doe - 719468)"

text \<open>The year and month of a day number (the inverse direction).\<close>

definition civil_from_days :: "int \<Rightarrow> int \<times> int" where
  "civil_from_days z0 =
     (let z = z0 + 719468;
          era = z div 146097;
          doe = z - era * 146097;
          yoe = (doe - doe div 1460 + doe div 36524 - doe div 146096) div 365;
          doy = doe - (365 * yoe + yoe div 4 - yoe div 100);
          mp = (5 * doy + 2) div 153;
          m = (if mp < 10 then mp + 3 else mp - 9);
          y = yoe + era * 400 + (if m \<le> 2 then 1 else 0)
      in (y, m))"

record tm =
  tm_year :: int
  tm_mon :: int
  tm_mday :: int
  tm_hour :: int
  tm_min :: int
  tm_sec :: int

definition tm0 :: tm where
  "tm0 = \<lparr>tm_year = 0, tm_mon = 0, tm_mday = 0, tm_hour = 0, tm_min = 0, tm_sec = 0\<rparr>"

definition is_digit :: "char \<Rightarrow> bool" where
  "is_digit c = (c \<in> set ''0123456789'')"

definition digit_val :: "char \<Rightarrow> int" where
  "digit_val c = int (of_char c) - 48"

definition is_space :: "char \<Rightarrow> bool" where
  "is_space c = (c = CHR '' '' \<or> of_char c \<in> {9::nat, 10, 11, 12, 13})"

text \<open>
  The number reader of the C library's \<^verbatim>\<open>strptime\<close>: after the first digit, it
  reads on while fewer than \<open>n\<close> digits are read, ten times the value does not exceed
  the upper bound, and a digit follows.
\<close>

fun more_digits :: "nat \<Rightarrow> int \<Rightarrow> int \<Rightarrow> string \<Rightarrow> int \<times> string" where
  "more_digits 0 hi v s = (v, s)"
| "more_digits (Suc n) hi v [] = (v, [])"
| "more_digits (Suc n) hi v (c # s) =
     (if v * 10 \<le> hi \<and> is_digit c
      then more_digits n hi (v * 10 + digit_val c) s
      else (v, c # s))"

definition get_number :: "int \<Rightarrow> int \<Rightarrow> nat \<Rightarrow> string \<Rightarrow> (int \<times> string) option" where
  "get_number lo hi n s =
     (case dropWhile (\<lambda>c. c = CHR '' '') s of
        [] \<Rightarrow> None
      | c # r \<Rightarrow>
          if is_digit c
          then (let (v, r') = more_digits (n - 1) hi (digit_val c) r
                in if v < lo \<or> hi < v then None else Some (v, r'))
          else None)"

text \<open>
  \<^verbatim>\<open>strptime\<close> for the directives the module uses (\<^verbatim>\<open>%Y %m %d %H %M %S\<close>):
  white space in the format skips any white space of the input, any other character
  must match, and the rest of the input is returned with the fields.
\<close>

definition directive :: "char \<Rightarrow> tm \<Rightarrow> string \<Rightarrow> (tm \<times> string) option" where
  "directive d t s =
     (if d = CHR ''Y'' then map_option (\<lambda>(v, r). (t\<lparr>tm_year := v - 1900\<rparr>, r)) (get_number 0 9999 4 s)
      else if d = CHR ''m'' then map_option (\<lambda>(v, r). (t\<lparr>tm_mon := v - 1\<rparr>, r)) (get_number 1 12 2 s)
      else if d = CHR ''d'' then map_option (\<lambda>(v, r). (t\<lparr>tm_mday := v\<rparr>, r)) (get_number 1 31 2 s)
      else if d = CHR ''H'' then map_option (\<lambda>(v, r). (t\<lparr>tm_hour := v\<rparr>, r)) (get_number 0 23 2 s)
      else if d = CHR ''M'' then map_option (\<lambda>(v, r). (t\<lparr>tm_min := v\<rparr>, r)) (get_number 0 59 2 s)
      else if d = CHR ''S'' then map_option (\<lambda>(v, r). (t\<lparr>tm_sec := v\<rparr>, r)) (get_number 0 61 2 s)
      else None)"

fun c_strptime :: "string \<Rightarrow> tm \<Rightarrow> string \<Rightarrow> (tm \<times> string) option" where
  "c_strptime [] t s = Some (t, s)"
| "c_strptime [f] t s =
     (if is_space f then Some (t, dropWhile is_space s)
      else if f = CHR ''%'' then None
      else (case s of [] \<Rightarrow> None | c # r \<Rightarrow> if c = f then Some (t, r) else None))"
| "c_strptime (f # d # fmt) t s =
     (if is_space f then c_strptime (d # fmt) t (dropWhile is_space s)
      else if f = CHR ''%'' then
        (case directive d t s of
           None \<Rightarrow> None
         | Some (t', r) \<Rightarrow> c_strptime fmt t' r)
      else (case s of
              [] \<Rightarrow> None
            | c # r \<Rightarrow> if c = f then c_strptime (d # fmt) t r else None))"

text \<open>The signed 64-bit integer a product wraps to.\<close>

definition wrap64 :: "int \<Rightarrow> int" where
  "wrap64 i = sint (word_of_int i :: 64 word)"

text \<open>
  \<^verbatim>\<open>pc.strptime(s, format, unit="ns", error_is_null=True)\<close> on one string: the
  whole string must be consumed; the fields give seconds since the epoch, scaled to
  nanoseconds in 64 bits.
\<close>

definition strptime_ns :: "string \<Rightarrow> string \<Rightarrow> int option" where
  "strptime_ns fmt s =
     (case c_strptime fmt tm0 s of
        None \<Rightarrow> None
      | Some (t, rest) \<Rightarrow>
          if rest \<noteq> [] then None
          else Some (wrap64
                 ((days_from_civil (tm_year t + 1900) (tm_mon t + 1) (max (tm_mday t) 1) * 86400
                   + tm_hour t * 3600 + tm_min t * 60 + tm_sec t) * 1000000000)))"

text \<open>\<^verbatim>\<open>replace_substring_regex(s, "Z$", "")\<close>.\<close>

definition strip_Z :: "string \<Rightarrow> string" where
  "strip_Z s = (if s \<noteq> [] \<and> last s = CHR ''Z'' then butlast s else s)"

text \<open>\<^verbatim>\<open>replace_substring_regex(s, "[+-]\\d{2}:\\d{2}$", "")\<close>.\<close>

definition is_offset :: "string \<Rightarrow> bool" where
  "is_offset s =
     (case s of
        [a, b, c, d, e, f] \<Rightarrow>
          (a = CHR ''+'' \<or> a = CHR ''-'') \<and> is_digit b \<and> is_digit c \<and> d = CHR '':''
            \<and> is_digit e \<and> is_digit f
      | _ \<Rightarrow> False)"

definition strip_offset :: "string \<Rightarrow> string" where
  "strip_offset s =
     (if 6 \<le> length s \<and> is_offset (drop (length s - 6) s) then take (length s - 6) s else s)"

text \<open>\<^verbatim>\<open>pc.coalesce\<close> on one row: the first non-null result.\<close>

fun coalesce :: "'a option list \<Rightarrow> 'a option" where
  "coalesce [] = None"
| "coalesce (None # xs) = coalesce xs"
| "coalesce (Some x # xs) = Some x"

definition timestamp_layouts :: "string list" where
  "timestamp_layouts =
     [''%Y-%m-%dT%H:%M:%S'', ''%Y-%m-%d %H:%M:%S'', ''%Y-%m-%dT%H:%M'', ''%Y-%m-%d %H:%M'']"

text \<open>One row of \<^verbatim>\<open>_parse_timestamp_ns_from_str\<close>.\<close>

definition parse_timestamp_str :: "string \<Rightarrow> int option" where
  "parse_timestamp_str s0 =
     (let s = strip_offset (strip_Z s0)
      in coalesce (map (\<lambda>fmt. strptime_ns fmt s) timestamp_layouts))"

definition str_slot :: "(string \<Rightarrow> int option) \<Rightarrow> val option \<Rightarrow> val option" where
  "str_slot f v = (case v of Some (VStr s) \<Rightarrow> map_option VInt (f s) | _ \<Rightarrow> None)"

definition parse_timestamp_ns_from_str :: "column \<Rightarrow> column" where
  "parse_timestamp_ns_from_str arr =
     (if \<not> is_string (ctype arr) then arr
      else \<lparr>ctype = timestamp_ns, cvals = map (str_slot parse_timestamp_str) (cvals arr)\<rparr>)"

text \<open>
  \<^verbatim>\<open>replace_substring_regex(s, "[T ].*$", "")\<close>: the text is cut at the first
  \<^verbatim>\<open>T\<close> or space that no line feed follows (\<^verbatim>\<open>.\<close> does not match a line feed).
\<close>

fun strip_time :: "string \<Rightarrow> string" where
  "strip_time [] = []"
| "strip_time (c # s) =
     (if (c = CHR ''T'' \<or> c = CHR '' '') \<and> CHR 0x0A \<notin> set s then []
      else c # strip_time s)"

definition parse_date_str :: "string \<Rightarrow> int option" where
  "parse_date_str s = strptime_ns ''%Y-%m-%d'' (strip_time s)"

definition ebind :: "error + 'a \<Rightarrow> ('a \<Rightarrow> error + 'b) \<Rightarrow> error + 'b" where
  "ebind r f = (case r of Inl e \<Rightarrow> Inl e | Inr x \<Rightarrow> f x)"

definition parse_date32_from_str :: "arrow \<Rightarrow> column \<Rightarrow> error + column" where
  "parse_date32_from_str lib arr =
     (if \<not> is_string (ctype arr) then Inr arr
      else cast lib \<lparr>ctype = timestamp_ns, cvals = map (str_slot parse_date_str) (cvals arr)\<rparr>
             TDate32)"

section \<open>The schema normalizer\<close>

text \<open>The cast to the field's type that ends each branch (skipped when the types agree).\<close>

definition cast_unless_equal :: "arrow \<Rightarrow> column \<Rightarrow> dtype \<Rightarrow> error + column" where
  "cast_unless_equal lib c t = (if ctype c \<noteq> t then cast lib c t else Inr c)"

text \<open>
  The generic branch: a direct cast; on any exception the cast is tried again on
  \<^verbatim>\<open>if_else(is_valid(col), col, nulls(len(col), type))\<close>.
\<close>

definition generic_cast :: "arrow \<Rightarrow> column \<Rightarrow> dtype \<Rightarrow> error + column" where
  "generic_cast lib c t =
     (if ctype c \<noteq> t then
        (case cast lib c t of
           Inr c' \<Rightarrow> Inr c'
         | Inl e \<Rightarrow>
             ebind (if_else lib (is_valid c) c (nulls (length (cvals c)) t))
               (\<lambda>g. cast lib g t))
      else Inr c)"

text \<open>The body of the loop of \<^verbatim>\<open>_cast_to_schema\<close> for one field of the target schema.\<close>

definition cast_field :: "arrow \<Rightarrow> table \<Rightarrow> string \<times> dtype \<Rightarrow> error + column" where
  "cast_field lib tbl field =
     (if fst field \<in> set (schema_names tbl) then
        ebind (column_of tbl (fst field)) (\<lambda>c.
          if is_timestamp (snd field) then
            ebind (if is_string (ctype c) then Inr (parse_timestamp_ns_from_str c)
                   else if has_tz (ctype c) then cast lib c timestamp_ns
                   else Inr c)
              (\<lambda>c1. cast_unless_equal lib c1 (snd field))
          else if is_date (snd field) then
            ebind (if is_string (ctype c) then parse_date32_from_str lib c else Inr c)
              (\<lambda>c1. cast_unless_equal lib c1 (snd field))
          else generic_cast lib c (snd field))
      else Inr (nulls (num_rows tbl) (snd field)))"

fun collect :: "('a \<Rightarrow> error + 'b) \<Rightarrow> 'a list \<Rightarrow> error + 'b list" where
  "collect f [] = Inr []"
| "collect f (x # xs) =
     (case f x of
        Inl e \<Rightarrow> Inl e
      | Inr y \<Rightarrow> (case collect f xs of Inl e \<Rightarrow> Inl e | Inr ys \<Rightarrow> Inr (y # ys)))"

text \<open>
  \<^verbatim>\<open>pa.Table.from_arrays(cols, schema=s)\<close>: the numbers of arrays and fields must
  agree, an array of another type than its field is cast to it, and the row count is
  the length of the first column.
\<close>

definition from_arrays :: "arrow \<Rightarrow> column list \<Rightarrow> schema \<Rightarrow> error + table" where
  "from_arrays lib cols s =
     (if length cols \<noteq> length s then Inl ValueError
      else ebind (collect (\<lambda>(c, f). cast_unless_equal lib c (snd f)) (zip cols s))
             (\<lambda>cs. Inr \<lparr>tcols = zip (map fst s) cs,
                         num_rows = (case cs of [] \<Rightarrow> 0 | c # _ \<Rightarrow> length (cvals c))\<rparr>))"

definition cast_to_schema :: "arrow \<Rightarrow> table \<Rightarrow> schema \<Rightarrow> error + table" where
  "cast_to_schema lib tbl target_schema =
     ebind (collect (cast_field lib tbl) target_schema)
       (\<lambda>cols. from_arrays lib cols target_schema)"

subsection \<open>A fragment of Arrow's conversion table\<close>

text \<open>
  The concrete runs below need concrete conversions. \<open>arrow_core\<close> is a part of
  Arrow's table: a type converts to itself, the null type to every type, a timestamp
  with a zone to the naive one of its unit, dates to nanosecond timestamps and back
  (back only at midnight, as the safe cast demands), and a string to a 32-bit float
  when it is an unsigned decimal integer below \<open>2 ^ 24\<close> (other numerals are left
  out of the fragment; a string that is no numeral converts in neither). The result
  of a conversion to 64-bit units must fit 64 bits. \<^verbatim>\<open>if_else\<close> promotes equal
  types and the null type only, and every zone is read as UTC (the runs below hold
  naive timestamps only).
\<close>

definition f32_of_int :: "int \<Rightarrow> 32 word" where
  "f32_of_int n =
     (if n = 0 then 0
      else (let e = length (filter (\<lambda>k. (2::int) ^ k \<le> n) [1..<24])
            in word_of_int ((int e + 127) * 2 ^ 23 + (n - 2 ^ e) * 2 ^ (23 - e))))"

definition int_of_digits :: "string \<Rightarrow> int" where
  "int_of_digits s = foldl (\<lambda>acc c. acc * 10 + digit_val c) 0 s"

definition str_to_f32 :: "val \<Rightarrow> val option" where
  "str_to_f32 v =
     (case v of
        VStr s \<Rightarrow>
          if s \<noteq> [] \<and> list_all is_digit s \<and> int_of_digits s < 2 ^ 24
          then Some (VFloat32 (f32_of_int (int_of_digits s)))
          else None
      | _ \<Rightarrow> None)"

definition fits64 :: "int \<Rightarrow> val option" where
  "fits64 i = (if - (2 ^ 63) \<le> i \<and> i < 2 ^ 63 then Some (VInt i) else None)"

definition date32_to_ns :: "val \<Rightarrow> val option" where
  "date32_to_ns v = (case v of VInt d \<Rightarrow> fits64 (d * 86400000000000) | _ \<Rightarrow> None)"

definition ns_to_date32 :: "val \<Rightarrow> val option" where
  "ns_to_date32 v =
     (case v of
        VInt n \<Rightarrow> if n mod 86400000000000 = 0 then Some (VInt (n div 86400000000000)) else None
      | _ \<Rightarrow> None)"

fun core_kernel :: "dtype \<Rightarrow> dtype \<Rightarrow> (val \<Rightarrow> val option) option" where
  "core_kernel TNull b = Some (\<lambda>v. None)"
| "core_kernel TDate32 (TTimestamp UnitNs None) = Some date32_to_ns"
| "core_kernel (TTimestamp UnitNs None) TDate32 = Some ns_to_date32"
| "core_kernel (TTimestamp u (Some z)) (TTimestamp u' None) = (if u = u' then Some Some else None)"
| "core_kernel TString TFloat32 = Some str_to_f32"
| "core_kernel a b = (if a = b then Some Some else None)"

definition core_common :: "dtype \<Rightarrow> dtype \<Rightarrow> dtype option" where
  "core_common a b =
     (if a = b then Some a else if a = TNull then Some b else if b = TNull then Some a else None)"

definition arrow_core :: arrow where
  "arrow_core = \<lparr>cast_kernel = core_kernel, common_type = core_common, utc_offset = (\<lambda>z t. 0)\<rparr>"

section \<open>The partition key deriver\<close>

definition units_per_second :: "tunit \<Rightarrow> int" where
  "units_per_second u =
     (case u of UnitS \<Rightarrow> 1 | UnitMs \<Rightarrow> 1000 | UnitUs \<Rightarrow> 1000000 | UnitNs \<Rightarrow> 1000000000)"

definition digit_char :: "int \<Rightarrow> char" where
  "digit_char d = char_of (48 + d)"

fun dec :: "nat \<Rightarrow> string" where
  "dec n = (if n < 10 then [digit_char (int n)] else dec (n div 10) @ [digit_char (int (n mod 10))])"

definition zero_pad :: "nat \<Rightarrow> string \<Rightarrow> string" where
  "zero_pad n s = replicate (n - length s) (CHR ''0'') @ s"

definition fmt_year :: "int \<Rightarrow> string" where
  "fmt_year y = (if y < 0 then CHR ''-'' # zero_pad 4 (dec (nat (- y))) else zero_pad 4 (dec (nat y)))"

text \<open>\<^verbatim>\<open>pc.strftime(ts, format="%Y-%m")\<close> on one value of a timestamp column.\<close>

definition strftime_ym :: "arrow \<Rightarrow> dtype \<Rightarrow> int \<Rightarrow> string" where
  "strftime_ym lib t v =
     (case t of
        TTimestamp u z \<Rightarrow>
          (let secs = v div units_per_second u;
               loc = (case z of None \<Rightarrow> secs | Some zone \<Rightarrow> secs + utc_offset lib zone secs);
               (y, m) = civil_from_days (loc div 86400)
           in fmt_year y @ ''-'' @ zero_pad 2 (dec (nat m)))
      | _ \<Rightarrow> [])"

definition ym_slot :: "arrow \<Rightarrow> dtype \<Rightarrow> val option \<Rightarrow> string option" where
  "ym_slot lib t v = (case v of Some (VInt i) \<Rightarrow> Some (strftime_ym lib t i) | _ \<Rightarrow> None)"

definition month_str :: "arrow \<Rightarrow> column \<Rightarrow> error + string option list" where
  "month_str lib arr =
     ebind (if is_timestamp (ctype arr) then Inr arr else cast lib arr timestamp_ns)
       (\<lambda>ts. Inr (map (ym_slot lib (ctype ts)) (cvals ts)))"

subsection \<open>Filtering, comparing, enumerating\<close>

text \<open>
  \<^verbatim>\<open>Table.filter(mask)\<close>: the rows whose mask slot is true are kept; a null slot
  drops the row.
\<close>

definition filter_slots :: "bool option list \<Rightarrow> 'a list \<Rightarrow> 'a list" where
  "filter_slots msk xs = map snd (filter (\<lambda>p. fst p = Some True) (zip msk xs))"

definition filter_tbl :: "bool option list \<Rightarrow> table \<Rightarrow> table" where
  "filter_tbl msk t =
     \<lparr>tcols = map (\<lambda>p. (fst p, (snd p)\<lparr>cvals := filter_slots msk (cvals (snd p))\<rparr>)) (tcols t),
      num_rows = length (filter (\<lambda>b. b = Some True) (take (num_rows t) msk))\<rparr>"

text \<open>Equality of two values; two floats compare as IEEE numbers.\<close>

definition f32_nan :: "32 word \<Rightarrow> bool" where
  "f32_nan x = (drop_bit 23 (take_bit 31 x) = 255 \<and> take_bit 23 x \<noteq> 0)"

definition val_eq :: "val \<Rightarrow> val \<Rightarrow> bool" where
  "val_eq a b =
     (case (a, b) of
        (VFloat32 x, VFloat32 y) \<Rightarrow>
          \<not> f32_nan x \<and> \<not> f32_nan y \<and> (x = y \<or> (take_bit 31 x = 0 \<and> take_bit 31 y = 0))
      | _ \<Rightarrow> a = b)"

text \<open>\<^verbatim>\<open>pc.equal(arr, pa.scalar(v))\<close>: null where the slot or the scalar is null.\<close>

definition equal_scalar :: "('a \<Rightarrow> 'a \<Rightarrow> bool) \<Rightarrow> 'a option list \<Rightarrow> 'a option \<Rightarrow> bool option list" where
  "equal_scalar eq xs s =
     map (\<lambda>x. case x of None \<Rightarrow> None
                | Some a \<Rightarrow> (case s of None \<Rightarrow> None | Some b \<Rightarrow> Some (eq a b))) xs"

text \<open>\<^verbatim>\<open>pc.unique(arr).to_pylist()\<close>: the distinct slots in the order of first occurrence.\<close>

definition unique :: "'a list \<Rightarrow> 'a list" where
  "unique xs = rev (remdups (rev xs))"

definition any_valid :: "column \<Rightarrow> bool" where
  "any_valid c = list_ex (\<lambda>v. v \<noteq> None) (cvals c)"

section \<open>The writer pool and the outside world\<close>

text \<open>
  A partition key is the pair \<^verbatim>\<open>(coin, yyyymm)\<close> of Python values. A writer is
  identified by the number of its creation. The world of a run: the
  \<^verbatim>\<open>OrderedDict\<close> of open writers (least recently used first), the counts, the
  output files (of each path, who made the file there), and the trace of what the run
  asked of the pool and did to the file system.
\<close>

type_synonym key = "val option \<times> string option"

datatype origin = Preexisting | WrittenBy nat

datatype event =
    Requested key
  | Unlinked string
  | Evicted key nat bool
  | Opened key nat string
  | Wrote nat table
  | Closed nat bool

record world =
  writers :: "(key \<times> nat) list"
  counts :: "(key \<times> nat) list"
  files :: "string \<Rightarrow> origin option"
  events :: "event list"
  next_handle :: nat

text \<open>
  The keyword arguments of \<^verbatim>\<open>split_asset_ctxs_by_coin_month\<close> that the run reads,
  and two oracles for what the environment does: whether creating the \<open>n\<close>-th writer
  fails, and whether closing a writer raises.
\<close>

record config =
  out_dir :: string
  row_group_size :: int
  target_schema :: schema
  overwrite :: bool
  max_open_writers :: int
  open_fails :: "nat \<Rightarrow> bool"
  close_fails :: "nat \<Rightarrow> bool"

text \<open>\<^verbatim>\<open>a / b\<close> on paths: an absolute \<open>b\<close> replaces \<open>a\<close>, an empty \<open>b\<close> adds nothing.\<close>

definition path_join :: "string \<Rightarrow> string \<Rightarrow> string" where
  "path_join a b =
     (case b of
        [] \<Rightarrow> a
      | c # _ \<Rightarrow> if c = CHR ''/'' then b else a @ ''/'' @ b)"

text \<open>\<^verbatim>\<open>out_dir / coin / f"{yyyymm}.parquet"\<close>; a coin that is no string raises.\<close>

definition out_path_of :: "config \<Rightarrow> key \<Rightarrow> error + string" where
  "out_path_of cfg key =
     (case fst key of
        Some (VStr coin) \<Rightarrow>
          Inr (path_join (path_join (out_dir cfg) coin)
                 ((case snd key of None \<Rightarrow> ''None'' | Some m \<Rightarrow> m) @ ''.parquet''))
      | _ \<Rightarrow> Inl TypeError)"

text \<open>\<^verbatim>\<open>writers.move_to_end(key)\<close>.\<close>

definition move_to_end :: "key \<Rightarrow> (key \<times> nat) list \<Rightarrow> (key \<times> nat) list" where
  "move_to_end key ws =
     (case map_of ws key of
        None \<Rightarrow> ws
      | Some h \<Rightarrow> filter (\<lambda>p. fst p \<noteq> key) ws @ [(key, h)])"

text \<open>
  \<^verbatim>\<open>writers.popitem(last=False)\<close> and the guarded \<^verbatim>\<open>close()\<close> of the writer it
  returns; on an empty dictionary \<^verbatim>\<open>popitem\<close> raises \<^verbatim>\<open>KeyError\<close>.
\<close>

definition evict_lru :: "config \<Rightarrow> world \<Rightarrow> (error + unit) \<times> world" where
  "evict_lru cfg w =
     (case writers w of
        [] \<Rightarrow> (Inl KeyError, w)
      | (old_key, old_writer) # rest \<Rightarrow>
          (Inr (), w\<lparr>writers := rest,
                     events := events w @ [Evicted old_key old_writer (\<not> close_fails cfg old_writer)]\<rparr>))"

text \<open>\<^verbatim>\<open>pq.ParquetWriter(where=out_path, ...)\<close> and \<^verbatim>\<open>writers[key] = w\<close>.\<close>

definition open_writer :: "config \<Rightarrow> key \<Rightarrow> string \<Rightarrow> world \<Rightarrow> (error + nat) \<times> world" where
  "open_writer cfg key out_path w =
     (let h = next_handle w
      in if open_fails cfg h then (Inl OSError, w\<lparr>next_handle := Suc h\<rparr>)
         else (Inr h, w\<lparr>next_handle := Suc h,
                        files := (files w)(out_path \<mapsto> WrittenBy h),
                        events := events w @ [Opened key h out_path],
                        writers := writers w @ [(key, h)]\<rparr>))"

text \<open>The steps of \<^verbatim>\<open>_writer_for\<close> on a key that is not in the pool.\<close>

definition request :: "key \<Rightarrow> world \<Rightarrow> world" where
  "request key w = w\<lparr>events := events w @ [Requested key]\<rparr>"

definition unlink_existing :: "config \<Rightarrow> string \<Rightarrow> world \<Rightarrow> world" where
  "unlink_existing cfg out_path w =
     (if overwrite cfg \<and> files w out_path \<noteq> None
      then w\<lparr>files := (files w)(out_path := None), events := events w @ [Unlinked out_path]\<rparr>
      else w)"

definition make_room :: "config \<Rightarrow> world \<Rightarrow> (error + unit) \<times> world" where
  "make_room cfg w =
     (if max_open_writers cfg \<le> int (length (writers w)) then evict_lru cfg w else (Inr (), w))"

text \<open>
  The closure \<^verbatim>\<open>_writer_for(coin, yyyymm)\<close>. Every call is entered in the trace
  as a request for its key.
\<close>

definition writer_for :: "config \<Rightarrow> val option \<Rightarrow> string option \<Rightarrow> world \<Rightarrow> (error + nat) \<times> world" where
  "writer_for cfg coin yyyymm w0 =
     (let key = (coin, yyyymm);
          w = request key w0
      in case map_of (writers w) key of
           Some h \<Rightarrow> (Inr h, w\<lparr>writers := move_to_end key (writers w)\<rparr>)
         | None \<Rightarrow>
             (case out_path_of cfg key of
                Inl e \<Rightarrow> (Inl e, w)
              | Inr out_path \<Rightarrow>
                  (case make_room cfg (unlink_existing cfg out_path w) of
                     (Inl e, w2) \<Rightarrow> (Inl e, w2)
                   | (Inr u, w2) \<Rightarrow> open_writer cfg key out_path w2)))"

section \<open>The streaming re-bucketer\<close>

text \<open>\<^verbatim>\<open>range(0, n, step)\<close>.\<close>

definition py_range :: "nat \<Rightarrow> int \<Rightarrow> error + nat list" where
  "py_range n step =
     (if step = 0 then Inl ValueError
      else if step < 0 then Inr []
      else Inr (map (\<lambda>k. k * nat step) [0..<(n + nat step - 1) div nat step]))"

text \<open>\<^verbatim>\<open>Table.slice(offset, length)\<close>.\<close>

definition slice :: "table \<Rightarrow> nat \<Rightarrow> nat \<Rightarrow> table" where
  "slice t off len =
     \<lparr>tcols = map (\<lambda>p. (fst p, (snd p)\<lparr>cvals := take len (drop off (cvals (snd p)))\<rparr>)) (tcols t),
      num_rows = min len (num_rows t - off)\<rparr>"

definition write_table :: "nat \<Rightarrow> table \<Rightarrow> world \<Rightarrow> world" where
  "write_table h t w = w\<lparr>events := events w @ [Wrote h t]\<rparr>"

text \<open>The writes of one coin-month sub-batch.\<close>

definition write_cm :: "config \<Rightarrow> nat \<Rightarrow> table \<Rightarrow> world \<Rightarrow> (error + unit) \<times> world" where
  "write_cm cfg writer cm_tbl w =
     (if row_group_size cfg < int (num_rows cm_tbl) then
        (case py_range (num_rows cm_tbl) (row_group_size cfg) of
           Inl e \<Rightarrow> (Inl e, w)
         | Inr starts \<Rightarrow>
             (Inr (), foldl (\<lambda>w' start. write_table writer
                                (slice cm_tbl start (nat (row_group_size cfg))) w') w starts))
      else (Inr (), write_table writer cm_tbl w))"

text \<open>\<^verbatim>\<open>counts[k] = counts.get(k, 0) + n\<close>.\<close>

definition add_count :: "key \<Rightarrow> nat \<Rightarrow> (key \<times> nat) list \<Rightarrow> (key \<times> nat) list" where
  "add_count k n cs = AList.update k ((case map_of cs k of None \<Rightarrow> 0 | Some c \<Rightarrow> c) + n) cs"

text \<open>A \<^verbatim>\<open>for\<close> loop whose body may raise: the first error ends the loop.\<close>

fun for_each :: "('a \<Rightarrow> 'w \<Rightarrow> (error + unit) \<times> 'w) \<Rightarrow> 'a list \<Rightarrow> 'w \<Rightarrow> (error + unit) \<times> 'w" where
  "for_each f [] w = (Inr (), w)"
| "for_each f (x # xs) w =
     (case f x w of
        (Inl e, w') \<Rightarrow> (Inl e, w')
      | (Inr u, w') \<Rightarrow> for_each f xs w')"

text \<open>The body of \<^verbatim>\<open>for m in uniq_months\<close>.\<close>

definition process_month ::
  "config \<Rightarrow> val option \<Rightarrow> table \<Rightarrow> string option list \<Rightarrow> string option \<Rightarrow> world
    \<Rightarrow> (error + unit) \<times> world" where
  "process_month cfg coin c_tbl months m w =
     (let cm_tbl = filter_tbl (equal_scalar (=) months m) c_tbl
      in if num_rows cm_tbl = 0 then (Inr (), w)
         else (case writer_for cfg coin m w of
                 (Inl e, w1) \<Rightarrow> (Inl e, w1)
               | (Inr writer, w1) \<Rightarrow>
                   (case write_cm cfg writer cm_tbl w1 of
                      (Inl e, w2) \<Rightarrow> (Inl e, w2)
                    | (Inr u, w2) \<Rightarrow>
                        (Inr (), w2\<lparr>counts := add_count (coin, m) (num_rows cm_tbl) (counts w2)\<rparr>))))"

text \<open>The body of \<^verbatim>\<open>for coin in coins\<close>.\<close>

definition process_coin ::
  "arrow \<Rightarrow> config \<Rightarrow> table \<Rightarrow> column \<Rightarrow> val option \<Rightarrow> world \<Rightarrow> (error + unit) \<times> world" where
  "process_coin lib cfg tbl coin_col coin w =
     (let c_tbl = filter_tbl (equal_scalar val_eq (cvals coin_col) coin) tbl
      in if num_rows c_tbl = 0 then (Inr (), w)
         else (case column_of c_tbl ''date'' of
                 Inl e \<Rightarrow> (Inl e, w)
               | Inr date_col \<Rightarrow>
                   (case (if \<not> is_date32 (ctype date_col) \<and> \<not> any_valid date_col
                          then column_of c_tbl ''time'' else Inr date_col) of
                      Inl e \<Rightarrow> (Inl e, w)
                    | Inr base_date \<Rightarrow>
                        (case month_str lib base_date of
                           Inl e \<Rightarrow> (Inl e, w)
                         | Inr months \<Rightarrow>
                             for_each (process_month cfg coin c_tbl months) (unique months) w))))"

text \<open>The body of \<^verbatim>\<open>for rec_batch in scanner.to_batches()\<close>.\<close>

definition process_batch :: "arrow \<Rightarrow> config \<Rightarrow> table \<Rightarrow> world \<Rightarrow> (error + unit) \<times> world" where
  "process_batch lib cfg rec_batch w =
     (case cast_to_schema lib rec_batch (target_schema cfg) of
        Inl e \<Rightarrow> (Inl e, w)
      | Inr tbl \<Rightarrow>
          if num_rows tbl = 0 then (Inr (), w)
          else (case column_of tbl ''coin'' of
                  Inl e \<Rightarrow> (Inl e, w)
                | Inr coin_col \<Rightarrow>
                    for_each (process_coin lib cfg tbl coin_col) (unique (cvals coin_col)) w))"

text \<open>The \<^verbatim>\<open>finally\<close> block: every writer of the pool gets a guarded \<^verbatim>\<open>close()\<close>.\<close>

definition close_all :: "config \<Rightarrow> world \<Rightarrow> world" where
  "close_all cfg w =
     w\<lparr>events := events w @ map (\<lambda>p. Closed (snd p) (\<not> close_fails cfg (snd p))) (writers w)\<rparr>"

text \<open>
  The scan: every batch of the dataset is projected to the columns of the target
  schema and filtered to the rows whose \<^verbatim>\<open>coin\<close> and \<^verbatim>\<open>time\<close> are both valid. A
  batch is given with the fields of the dataset's schema; a field the scan names and
  the dataset lacks is an error.
\<close>

definition dataset_field :: "table \<Rightarrow> string \<Rightarrow> error + column" where
  "dataset_field b n = (case column_of b n of Inl e \<Rightarrow> Inl ArrowInvalid | Inr c \<Rightarrow> Inr c)"

definition scan_batch :: "string list \<Rightarrow> table \<Rightarrow> error + table" where
  "scan_batch names b =
     ebind (dataset_field b ''coin'') (\<lambda>coin.
     ebind (dataset_field b ''time'') (\<lambda>time.
     ebind (collect (dataset_field b) names) (\<lambda>cols.
       Inr (filter_tbl (map (\<lambda>p. Some (fst p \<and> snd p)) (zip (is_valid coin) (is_valid time)))
              \<lparr>tcols = zip names cols, num_rows = num_rows b\<rparr>))))"

definition scanner :: "string list \<Rightarrow> table list \<Rightarrow> error + table list" where
  "scanner names dataset = collect (scan_batch names) dataset"

definition new_world :: "(string \<Rightarrow> origin option) \<Rightarrow> world" where
  "new_world fs = \<lparr>writers = [], counts = [], files = fs, events = [], next_handle = 0\<rparr>"

text \<open>
  \<^verbatim>\<open>split_asset_ctxs_by_coin_month\<close>. The input directory is given by whether it
  exists and by the files the glob matches, each file a list of record batches; \<open>fs\<close>
  is the content of the output directory before the run.
\<close>

definition split_asset_ctxs_by_coin_month ::
  "arrow \<Rightarrow> config \<Rightarrow> bool \<Rightarrow> table list list \<Rightarrow> (string \<Rightarrow> origin option)
    \<Rightarrow> (error + (key \<times> nat) list) \<times> world" where
  "split_asset_ctxs_by_coin_month lib cfg in_dir_exists in_files fs =
     (if \<not> in_dir_exists then (Inl FileNotFoundError, new_world fs)
      else if in_files = [] then (Inl FileNotFoundError, new_world fs)
      else (case scanner (map fst (target_schema cfg)) (concat in_files) of
              Inl e \<Rightarrow> (Inl e, new_world fs)
            | Inr batches \<Rightarrow>
                (case for_each (process_batch lib cfg) batches (new_world fs) of
                   (r, w) \<Rightarrow>
                     (let w' = close_all cfg w
                      in (case r of Inl e \<Rightarrow> Inl e | Inr u \<Rightarrow> Inr (counts w'), w')))))"


section \<open>Reading the trace; example data\<close>

text \<open>The tables written through writer \<open>h\<close>, in the order of the writes.\<close>

definition writes_of :: "nat \<Rightarrow> event list \<Rightarrow> table list" where
  "writes_of h es =
     concat (map (\<lambda>e. case e of Wrote h' t \<Rightarrow> if h' = h then [t] else [] | _ \<Rightarrow> []) es)"

text \<open>
  The writers that are open after a trace: a writer is open from its creation to the
  first attempt to close it (at its eviction or in the \<^verbatim>\<open>finally\<close> block).
\<close>

definition step_open :: "nat list \<Rightarrow> event \<Rightarrow> nat list" where
  "step_open hs e =
     (case e of
        Opened k h p \<Rightarrow> hs @ [h]
      | Evicted k h ok \<Rightarrow> remove1 h hs
      | Closed h ok \<Rightarrow> remove1 h hs
      | _ \<Rightarrow> hs)"

definition open_handles :: "event list \<Rightarrow> nat list" where
  "open_handles es = foldl step_open [] es"



text \<open>
  The time of the last access to a key: the position in the trace, counted from 1, of
  the last request for it (to create or to fetch its writer), 0 when there is none.
\<close>

definition last_req :: "event list \<Rightarrow> key \<Rightarrow> nat" where
  "last_req es k = length (dropWhile (\<lambda>e. e \<noteq> Requested k) (rev es))"


text \<open>A table of \<open>n\<close> numbered rows, and a configuration in which nothing fails.\<close>

definition numbered :: "nat \<Rightarrow> table" where
  "numbered n =
     \<lparr>tcols = [(''row'', \<lparr>ctype = TInt64, cvals = map (\<lambda>i. Some (VInt (int i))) [0..<n]\<rparr>)],
      num_rows = n\<rparr>"

definition plain_config :: "int \<Rightarrow> int \<Rightarrow> config" where
  "plain_config rgs cap =
     \<lparr>out_dir = ''out'', row_group_size = rgs, target_schema = DEFAULT_SCHEMA, overwrite = True,
      max_open_writers = cap, open_fails = (\<lambda>n. False), close_fails = (\<lambda>n. False)\<rparr>"

text \<open>
  A batch of one row with every column of \<^verbatim>\<open>DEFAULT_SCHEMA\<close>: the coin \<^verbatim>\<open>BTC\<close> at
  2024-08-01 09:30:00, the metrics null, and the given \<^verbatim>\<open>date\<close> slot.
\<close>

definition one_row :: "val option \<Rightarrow> table" where
  "one_row d =
     \<lparr>tcols =
        [(''time'', \<lparr>ctype = TTimestamp UnitNs None, cvals = [Some (VInt 1722504600000000000)]\<rparr>),
         (''coin'', \<lparr>ctype = TString, cvals = [Some (VStr ''BTC'')]\<rparr>),
         (''funding'', \<lparr>ctype = TFloat32, cvals = [None]\<rparr>),
         (''open_interest'', \<lparr>ctype = TFloat32, cvals = [None]\<rparr>),
         (''prev_day_px'', \<lparr>ctype = TFloat32, cvals = [None]\<rparr>),
         (''day_ntl_vlm'', \<lparr>ctype = TFloat32, cvals = [None]\<rparr>),
         (''premium'', \<lparr>ctype = TFloat32, cvals = [None]\<rparr>),
         (''oracle_px'', \<lparr>ctype = TFloat32, cvals = [None]\<rparr>),
         (''mark_px'', \<lparr>ctype = TFloat32, cvals = [None]\<rparr>),
         (''mid_px'', \<lparr>ctype = TFloat32, cvals = [None]\<rparr>),
         (''impact_bid_px'', \<lparr>ctype = TFloat32, cvals = [None]\<rparr>),
         (''impact_ask_px'', \<lparr>ctype = TFloat32, cvals = [None]\<rparr>),
         (''date'', \<lparr>ctype = TDate32, cvals = [d]\<rparr>)],
      num_rows = 1\<rparr>"

text \<open>
  A batch with one row for each of the given coins (all at 2024-08-01 09:30:00, date
  2024-08-01) and the metric columns of the given type and slot.
\<close>

definition coin_rows :: "string list \<Rightarrow> dtype \<Rightarrow> val option \<Rightarrow> table" where
  "coin_rows coins t v =
     (let n = length coins;
          metric = \<lparr>ctype = t, cvals = replicate n v\<rparr>
      in \<lparr>tcols =
            [(''time'', \<lparr>ctype = TTimestamp UnitNs None,
                        cvals = replicate n (Some (VInt 1722504600000000000))\<rparr>),
             (''coin'', \<lparr>ctype = TString, cvals = map (\<lambda>c. Some (VStr c)) coins\<rparr>),
             (''funding'', metric),
             (''open_interest'', metric),
             (''prev_day_px'', metric),
             (''day_ntl_vlm'', metric),
             (''premium'', metric),
             (''oracle_px'', metric),
             (''mark_px'', metric),
             (''mid_px'', metric),
             (''impact_bid_px'', metric),
             (''impact_ask_px'', metric),
             (''date'', \<lparr>ctype = TDate32, cvals = replicate n (Some (VInt 19936))\<rparr>)],
          num_rows = n\<rparr>)"

text \<open>The keys of the requests and of the evictions of a trace, in order.\<close>

definition requests_of :: "event list \<Rightarrow> key list" where
  "requests_of es = concat (map (\<lambda>e. case e of Requested k \<Rightarrow> [k] | _ \<Rightarrow> []) es)"


text \<open>The events of a trace without the tables of the writes.\<close>

datatype brief = BRequested string | BUnlinked string | BEvicted string nat bool
  | BOpened string nat string | BWrote nat nat | BClosed nat bool

definition coin_name :: "key \<Rightarrow> string" where
  "coin_name k = (case fst k of Some (VStr c) \<Rightarrow> c | _ \<Rightarrow> [])"

definition brief_of :: "event \<Rightarrow> brief" where
  "brief_of e =
     (case e of
        Requested k \<Rightarrow> BRequested (coin_name k)
      | Unlinked p \<Rightarrow> BUnlinked p
      | Evicted k h ok \<Rightarrow> BEvicted (coin_name k) h ok
      | Opened k h p \<Rightarrow> BOpened (coin_name k) h p
      | Wrote h t \<Rightarrow> BWrote h (num_rows t)
      | Closed h ok \<Rightarrow> BClosed h ok)"


definition run_data_error :: "(error + (key \<times> nat) list) \<times> world" where
  "run_data_error =
     split_asset_ctxs_by_coin_month arrow_core
       ((plain_config 1000000 64)\<lparr>close_fails := (\<lambda>h. h = 0)\<rparr>) True
       [[coin_rows [''A'', ''B'', ''C''] TFloat32 None],
        [coin_rows [''A'', ''B''] TString (Some (VStr ''abc''))]]
       Map.empty"



section \<open>Writing timestamps in the accepted layouts\<close>










section \<open>Invariants of the writer pool\<close>

text \<open>
  The pool and the trace agree: the keys of the pool are distinct, and its writers are
  the writers that are open after the trace.
\<close>

definition live_inv :: "world \<Rightarrow> bool" where
  "live_inv w =
     (distinct (map fst (writers w))
      \<and> mset (map snd (writers w)) = mset (open_handles (events w)))"

text \<open>At no point of the trace have more than \<open>N\<close> writers been open.\<close>

definition peak :: "int \<Rightarrow> event list \<Rightarrow> bool" where
  "peak N es = (\<forall>n \<le> length es. int (length (open_handles (take n es))) \<le> N)"












text \<open>\<open>P\<close> after a step that returns, \<open>Q\<close> after a step that raises.\<close>

definition post :: "('w \<Rightarrow> bool) \<Rightarrow> ('w \<Rightarrow> bool) \<Rightarrow> error + 'a \<Rightarrow> 'w \<Rightarrow> bool" where
  "post P Q r w = (case r of Inl e \<Rightarrow> Q w | Inr u \<Rightarrow> P w)"



section \<open>Properties of the schema normalizer\<close>

lemma cast_type:
  "cast lib c t = Inr c' \<Longrightarrow> ctype c' = t \<and> length (cvals c') = length (cvals c)"
  by (auto simp: cast_def split: option.splits if_splits)

lemma cast_unless_equal_type: "cast_unless_equal lib c t = Inr c' \<Longrightarrow> ctype c' = t"
  by (auto simp: cast_unless_equal_def dest: cast_type split: if_splits)

lemma generic_cast_type: "generic_cast lib c t = Inr c' \<Longrightarrow> ctype c' = t"
  by (auto simp: generic_cast_def ebind_def dest: cast_type split: if_splits sum.splits)

lemma cast_field_type: "cast_field lib tbl f = Inr c \<Longrightarrow> ctype c = snd f"
  by (auto simp: cast_field_def ebind_def nulls_def
           dest: cast_unless_equal_type generic_cast_type
           split: if_splits sum.splits)

lemma cast_field_absent:
  "fst f \<notin> set (schema_names tbl) \<Longrightarrow>
   cast_field lib tbl f = Inr (nulls (num_rows tbl) (snd f))"
  by (simp add: cast_field_def)

lemma collect_list_all2:
  "collect f xs = Inr ys \<Longrightarrow> list_all2 (\<lambda>x y. f x = Inr y) xs ys"
  by (induction xs arbitrary: ys) (auto split: sum.splits)

lemma collect_same:
  "list_all2 (\<lambda>c f. ctype c = snd f) cols s \<Longrightarrow>
   collect (\<lambda>(c, f). cast_unless_equal lib c (snd f)) (zip cols s) = Inr cols"
  by (induction cols s rule: list_all2_induct) (auto simp: cast_unless_equal_def)

lemma cast_to_schema_cols:
  assumes "cast_to_schema lib tbl target = Inr out"
  shows "\<exists>cols. list_all2 (\<lambda>f c. cast_field lib tbl f = Inr c) target cols
           \<and> tcols out = zip (map fst target) cols"
proof -
  from assms obtain cols where c: "collect (cast_field lib tbl) target = Inr cols"
    and f: "from_arrays lib cols target = Inr out"
    by (auto simp: cast_to_schema_def ebind_def split: sum.splits)
  have l2: "list_all2 (\<lambda>f c. cast_field lib tbl f = Inr c) target cols"
    using c by (rule collect_list_all2)
  then have "list_all2 (\<lambda>c f. ctype c = snd f) cols target"
    by (auto simp: list_all2_conv_all_nth dest: cast_field_type)
  then have "collect (\<lambda>(c, f). cast_unless_equal lib c (snd f)) (zip cols target) = Inr cols"
    by (rule collect_same)
  with f have "tcols out = zip (map fst target) cols"
    by (auto simp: from_arrays_def ebind_def split: if_splits)
  with l2 show ?thesis by blast
qed

text \<open>
  C5. Whenever \<^verbatim>\<open>_cast_to_schema\<close> returns a table, for any input table, any target
  schema and any conversion table of the library, the table's fields are exactly the
  target schema's (names, order and types; so no other input column is kept), and
  every target column whose name the input lacks is the all-null column of the target
  type with as many slots as the input has rows.
\<close>

theorem cast_to_schema_conforms:
  assumes "cast_to_schema lib tbl target = Inr out"
  shows "table_schema out = target \<and>
         (\<forall>i < length target. fst (target ! i) \<notin> set (schema_names tbl) \<longrightarrow>
            snd (tcols out ! i) = nulls (num_rows tbl) (snd (target ! i)))"
proof -
  from cast_to_schema_cols [OF assms] obtain cols where
    l2: "list_all2 (\<lambda>f c. cast_field lib tbl f = Inr c) target cols"
    and t: "tcols out = zip (map fst target) cols" by blast
  have len: "length cols = length target"
    using l2 by (simp add: list_all2_lengthD)
  have ty: "\<And>i. i < length target \<Longrightarrow> ctype (cols ! i) = snd (target ! i)"
    using l2 by (auto simp: list_all2_conv_all_nth dest: cast_field_type)
  have "table_schema out = target"
    unfolding table_schema_def t using len ty
    by (auto simp: list_eq_iff_nth_eq prod_eq_iff)
  moreover have "snd (tcols out ! i) = nulls (num_rows tbl) (snd (target ! i))"
    if i: "i < length target" and n: "fst (target ! i) \<notin> set (schema_names tbl)" for i
  proof -
    from l2 i have "cast_field lib tbl (target ! i) = Inr (cols ! i)"
      by (simp add: list_all2_conv_all_nth)
    moreover from n
    have "cast_field lib tbl (target ! i) = Inr (nulls (num_rows tbl) (snd (target ! i)))"
      by (rule cast_field_absent)
    ultimately have "cols ! i = nulls (num_rows tbl) (snd (target ! i))"
      by simp
    then show ?thesis using t i len by simp
  qed
  ultimately show ?thesis by blast
qed

theorem cast_to_schema_conforms_witness:
  "cast_to_schema arrow_core
     \<lparr>tcols = [(''funding'', \<lparr>ctype = TString, cvals = [Some (VStr ''12''), None]\<rparr>),
               (''venue'', \<lparr>ctype = TString, cvals = [Some (VStr ''hl''), None]\<rparr>)],
      num_rows = 2\<rparr>
     [(''funding'', TFloat32), (''date'', TDate32)]
   = Inr \<lparr>tcols = [(''funding'', \<lparr>ctype = TFloat32, cvals = [Some (VFloat32 0x41400000), None]\<rparr>),
                   (''date'', \<lparr>ctype = TDate32, cvals = [None, None]\<rparr>)],
          num_rows = 2\<rparr>
   \<and> table_schema
       \<lparr>tcols = [(''funding'', \<lparr>ctype = TFloat32, cvals = [Some (VFloat32 0x41400000), None]\<rparr>),
                 (''date'', \<lparr>ctype = TDate32, cvals = [None, None]\<rparr>)],
        num_rows = 2\<rparr>
     = [(''funding'', TFloat32), (''date'', TDate32)]
   \<and> \<lparr>ctype = TDate32, cvals = [None, None]\<rparr> = nulls 2 TDate32"
proof -
  have h: "cast_to_schema arrow_core
     \<lparr>tcols = [(''funding'', \<lparr>ctype = TString, cvals = [Some (VStr ''12''), None]\<rparr>),
               (''venue'', \<lparr>ctype = TString, cvals = [Some (VStr ''hl''), None]\<rparr>)],
      num_rows = 2\<rparr>
     [(''funding'', TFloat32), (''date'', TDate32)]
   = Inr \<lparr>tcols = [(''funding'', \<lparr>ctype = TFloat32, cvals = [Some (VFloat32 0x41400000), None]\<rparr>),
                   (''date'', \<lparr>ctype = TDate32, cvals = [None, None]\<rparr>)],
          num_rows = 2\<rparr>"
    by code_simp
  from cast_to_schema_conforms [OF h] have
    "table_schema
       \<lparr>tcols = [(''funding'', \<lparr>ctype = TFloat32, cvals = [Some (VFloat32 0x41400000), None]\<rparr>),
                 (''date'', \<lparr>ctype = TDate32, cvals = [None, None]\<rparr>)],
        num_rows = 2\<rparr>
     = [(''funding'', TFloat32), (''date'', TDate32)]"
    and a: "\<forall>i < length [(''funding'', TFloat32), (''date'', TDate32)].
          fst ([(''funding'', TFloat32), (''date'', TDate32)] ! i) \<notin> set (schema_names
            \<lparr>tcols = [(''funding'', \<lparr>ctype = TString, cvals = [Some (VStr ''12''), None]\<rparr>),
               (''venue'', \<lparr>ctype = TString, cvals = [Some (VStr ''hl''), None]\<rparr>)],
             num_rows = 2\<rparr>) \<longrightarrow>
          snd (tcols \<lparr>tcols = [(''funding'', \<lparr>ctype = TFloat32, cvals = [Some (VFloat32 0x41400000), None]\<rparr>),
                   (''date'', \<lparr>ctype = TDate32, cvals = [None, None]\<rparr>)],
          num_rows = 2\<rparr> ! i) = nulls (num_rows \<lparr>tcols = [(''funding'', \<lparr>ctype = TString, cvals = [Some (VStr ''12''), None]\<rparr>),
               (''venue'', \<lparr>ctype = TString, cvals = [Some (VStr ''hl''), None]\<rparr>)],
             num_rows = 2\<rparr>) (snd ([(''funding'', TFloat32), (''date'', TDate32)] ! i))"
    by blast+
  moreover from a [rule_format, of 1]
  have "\<lparr>ctype = TDate32, cvals = [None, None]\<rparr> = nulls 2 TDate32"
    by (simp add: schema_names_def)
  ultimately show ?thesis using h by blast
qed

lemma cast_null_slots:
  "cast lib c t = Inr c' \<Longrightarrow> map (\<lambda>v. v = None) (cvals c') = map (\<lambda>v. v = None) (cvals c)"
  by (auto simp: cast_def convert_def convertible_def list_all_iff
           split: option.splits if_splits)

lemma if_else_null_slots:
  assumes "if_else lib (is_valid c) c (nulls (length (cvals c)) t) = Inr g"
  shows "map (\<lambda>v. v = None) (cvals g) = map (\<lambda>v. v = None) (cvals c)"
proof -
  let ?b = "nulls (length (cvals c)) t"
  from assms obtain u a' b' where
    a: "(if ctype c = u then Inr c else cast lib c u) = Inr a'"
    and b: "(if ctype ?b = u then Inr ?b else cast lib ?b u) = Inr b'"
    and g: "cvals g = map (\<lambda>(m, x, y). if m then x else y)
                        (zip (is_valid c) (zip (cvals a') (cvals b')))"
    by (auto simp: if_else_def split: option.splits sum.splits)
  have na: "map (\<lambda>v. v = None) (cvals a') = map (\<lambda>v. v = None) (cvals c)"
    using a by (auto dest: cast_null_slots split: if_splits)
  have nb: "map (\<lambda>v. v = None) (cvals b') = map (\<lambda>v. v = None) (cvals ?b)"
    using b by (auto dest: cast_null_slots split: if_splits)
  have la: "length (cvals a') = length (cvals c)"
    using na by (rule map_eq_imp_length_eq)
  have lb: "length (cvals b') = length (cvals c)"
    using map_eq_imp_length_eq [OF nb] by (simp add: nulls_def)
  show ?thesis
  proof (rule nth_equalityI)
    show "length (map (\<lambda>v. v = None) (cvals g)) = length (map (\<lambda>v. v = None) (cvals c))"
      by (simp add: g la lb is_valid_def)
  next
    fix i assume "i < length (map (\<lambda>v. v = None) (cvals g))"
    then have i: "i < length (cvals c)" by (simp add: g la lb is_valid_def)
    have "(cvals a' ! i = None) = (cvals c ! i = None)"
      using arg_cong [OF na, of "\<lambda>xs. xs ! i"] i la by simp
    moreover have "(cvals b' ! i = None) = (cvals ?b ! i = None)"
      using arg_cong [OF nb, of "\<lambda>xs. xs ! i"] i lb by (simp add: nulls_def)
    ultimately show "map (\<lambda>v. v = None) (cvals g) ! i = map (\<lambda>v. v = None) (cvals c) ! i"
      using i by (simp add: g la lb is_valid_def nulls_def)
  qed
qed

lemma generic_cast_null_slots:
  "generic_cast lib c t = Inr c' \<Longrightarrow>
   map (\<lambda>v. v = None) (cvals c') = map (\<lambda>v. v = None) (cvals c)"
  by (auto simp: generic_cast_def ebind_def
           dest!: cast_null_slots if_else_null_slots split: if_splits sum.splits)

text \<open>
  C7. The claim reads the \<^verbatim>\<open>except\<close> branch of the generic cast as an
  element-wise guarded cast that nulls the elements the target type cannot hold. The
  code retries the cast on \<^verbatim>\<open>if_else(is_valid(col), col, nulls)\<close>, which keeps every
  non-null element (\<open>generic_cast_null_slots\<close>: whenever the generic cast returns,
  exactly the slots that were null are null). On a string column holding
  \<^verbatim>\<open>"12"\<close>, \<^verbatim>\<open>"abc"\<close> and a null, with the target type \<^verbatim>\<open>float32\<close>, the direct
  cast fails on \<^verbatim>\<open>"abc"\<close> and the retry raises as well: the batch is aborted and
  no element becomes null.
\<close>

theorem guarded_cast_aborts:
  "cast arrow_core \<lparr>ctype = TString, cvals = [Some (VStr ''12''), Some (VStr ''abc''), None]\<rparr> TFloat32
     = Inl ArrowInvalid
   \<and> cast_to_schema arrow_core
       \<lparr>tcols = [(''funding'',
                  \<lparr>ctype = TString, cvals = [Some (VStr ''12''), Some (VStr ''abc''), None]\<rparr>)],
        num_rows = 3\<rparr>
       DEFAULT_SCHEMA
     = Inl ArrowNotImplementedError"
  by code_simp

section \<open>The timestamp parser on the accepted layouts\<close>
























































section \<open>Row-group slicing\<close>

lemma foldl_write_table:
  "foldl (\<lambda>w' s. write_table h (g s) w') w xs =
   w\<lparr>events := events w @ map (\<lambda>s. Wrote h (g s)) xs\<rparr>"
  by (induction xs arbitrary: w) (auto simp: write_table_def)

lemma sum_slices:
  "sum_list (map (\<lambda>i. min r (n - i * r)) [0..<k]) = min (k * r) (n::nat)"
  by (induction k) (auto simp: min_def)

lemma ceil_cover:
  assumes "0 < (r::nat)"
  shows "n \<le> (n + r - 1) div r * r"
proof -
  have "(n + r - 1) mod r < r" using assms by simp
  moreover have "(n + r - 1) div r * r + (n + r - 1) mod r = n + r - 1" by simp
  ultimately show ?thesis by linarith
qed

lemma three_groups: "5 \<le> r \<Longrightarrow> (2 * r + 5 + r - 1) div r = (3::nat)"
  by (rule div_nat_eqI) auto

lemma slice_rows: "num_rows (slice t off len) = min len (num_rows t - off)"
  by (simp add: slice_def)

lemma sizes_total:
  assumes "0 < (r::nat)"
  shows "sum_list (map (\<lambda>i. min r (n - i * r)) [0..<(n + r - 1) div r]) = n"
  using ceil_cover [OF assms, of n] by (simp add: sum_slices)

lemma sizes_three:
  assumes "5 \<le> (r::nat)"
  shows "map (\<lambda>i. min r (2 * r + 5 - i * r)) [0..<(2 * r + 5 + r - 1) div r] = [r, r, 5]"
proof -
  have "[0..<3] = [0, 1, 2::nat]" by (simp add: upt_rec)
  then show ?thesis using assms by (simp add: three_groups)
qed

lemma write_cm_events:
  assumes "1 \<le> row_group_size cfg" and "row_group_size cfg < int (num_rows cm)"
  shows "write_cm cfg h cm w =
           (Inr (), w\<lparr>events := events w @
              map (\<lambda>i. Wrote h (slice cm (i * nat (row_group_size cfg)) (nat (row_group_size cfg))))
                [0..<(num_rows cm + nat (row_group_size cfg) - 1) div nat (row_group_size cfg)]\<rparr>)"
  using assms by (simp add: write_cm_def py_range_def foldl_write_table comp_def)

text \<open>
  C9, as the claim states it, at \<^verbatim>\<open>row_group_size = 2\<close>: a sub-batch of
  \<open>2 * 2 + 5 = 9\<close> rows is written in five writes of 2, 2, 2, 2 and 1 rows, not in
  three writes of 2, 2 and 5 rows.
\<close>

theorem write_cm_three_writes_counterexample:
  "num_rows (numbered 9) = 2 * 2 + 5
   \<and> map num_rows (writes_of 0 (events (snd
        (write_cm (plain_config 2 64) 0 (numbered 9) (new_world Map.empty)))))
       = [2, 2, 2, 2, 1]
   \<and> map num_rows (writes_of 0 (events (snd
        (write_cm (plain_config 2 64) 0 (numbered 9) (new_world Map.empty)))))
       \<noteq> [2, 2, 5]"
  by code_simp

text \<open>
  C9, amended. With a row-group size \<open>r\<close> of at least 1, a coin-month sub-batch of
  \<open>n > r\<close> rows is written, through the writer of its key and in this order, as the
  \<open>k = \<lceil>n / r\<rceil>\<close> slices that start at the rows \<open>0, r, 2r, ...\<close>; slice \<open>i\<close> has
  \<open>min r (n - i r)\<close> rows, which is at least one and at most \<open>r\<close>, and the sizes add
  up to \<open>n\<close>. When moreover \<open>r \<ge> 5\<close>, a sub-batch of \<open>2r + 5\<close> rows is written in
  exactly three writes, of \<open>r\<close>, \<open>r\<close> and 5 rows.
\<close>

theorem write_cm_slices:
  assumes "1 \<le> row_group_size cfg" and "row_group_size cfg < int (num_rows cm)"
    and r: "r = nat (row_group_size cfg)" and n: "n = num_rows cm"
    and k: "k = (n + r - 1) div r"
  shows "write_cm cfg h cm w =
           (Inr (), w\<lparr>events := events w @ map (\<lambda>i. Wrote h (slice cm (i * r) r)) [0..<k]\<rparr>)
         \<and> (\<forall>i < k. num_rows (slice cm (i * r) r) = min r (n - i * r)
                   \<and> 1 \<le> num_rows (slice cm (i * r) r) \<and> num_rows (slice cm (i * r) r) \<le> r)
         \<and> sum_list (map (\<lambda>i. num_rows (slice cm (i * r) r)) [0..<k]) = n
         \<and> (5 \<le> r \<and> n = 2 * r + 5 \<longrightarrow>
              map (\<lambda>i. num_rows (slice cm (i * r) r)) [0..<k] = [r, r, 5])"
proof -
  have rpos: "0 < r" using assms(1) r by simp
  have 1: "write_cm cfg h cm w =
           (Inr (), w\<lparr>events := events w @ map (\<lambda>i. Wrote h (slice cm (i * r) r)) [0..<k]\<rparr>)"
    unfolding r n k by (rule write_cm_events [OF assms(1,2)])
  have 2: "num_rows (slice cm (i * r) r) = min r (n - i * r)
           \<and> 1 \<le> num_rows (slice cm (i * r) r) \<and> num_rows (slice cm (i * r) r) \<le> r"
    if "i < k" for i
  proof -
    have "i * r < n"
    proof (rule ccontr)
      assume "\<not> i * r < n"
      then have "n + r - 1 < (i + 1) * r" using rpos by simp
      then have "(n + r - 1) div r < i + 1" using rpos by (simp add: div_less_iff_less_mult)
      with that k show False by simp
    qed
    then show ?thesis using rpos by (simp add: slice_rows n)
  qed
  have 3: "sum_list (map (\<lambda>i. num_rows (slice cm (i * r) r)) [0..<k]) = n"
    using sizes_total [OF rpos, of n] by (simp add: slice_rows n k)
  have 4: "map (\<lambda>i. num_rows (slice cm (i * r) r)) [0..<k] = [r, r, 5]"
    if "5 \<le> r" and "n = 2 * r + 5"
    using sizes_three [OF that(1)] that(2) by (simp add: slice_rows n [symmetric] k)
  from 1 2 3 4 show ?thesis by blast
qed

theorem write_cm_slices_witness:
  "1 \<le> row_group_size (plain_config 6 64)
   \<and> row_group_size (plain_config 6 64) < int (num_rows (numbered 17))
   \<and> map num_rows (writes_of 0 (events (snd
        (write_cm (plain_config 6 64) 0 (numbered 17) (new_world Map.empty)))))
       = [6, 6, 5]"
proof -
  have a: "1 \<le> row_group_size (plain_config 6 64)"
    by (simp add: plain_config_def)
  have b: "row_group_size (plain_config 6 64) < int (num_rows (numbered 17))"
    by (simp add: plain_config_def numbered_def)
  have c: "(6::nat) = nat (row_group_size (plain_config 6 64))"
    by (simp add: plain_config_def)
  have d: "(17::nat) = num_rows (numbered 17)"
    by (simp add: numbered_def)
  have e: "(3::nat) = (17 + 6 - 1) div 6" by simp
  from write_cm_slices [OF a b c d e, of 0 "new_world Map.empty"]
  have w: "write_cm (plain_config 6 64) 0 (numbered 17) (new_world Map.empty) =
      (Inr (), (new_world Map.empty)\<lparr>events := events (new_world Map.empty) @
          map (\<lambda>i. Wrote 0 (slice (numbered 17) (i * 6) 6)) [0..<3]\<rparr>)"
    and s: "map (\<lambda>i. num_rows (slice (numbered 17) (i * 6) 6)) [0..<3] = [6, 6, 5]"
    by simp_all
  have "[0..<3] = [0, 1, 2::nat]" by (simp add: upt_rec)
  with s have "map num_rows (writes_of 0 (events (snd
        (write_cm (plain_config 6 64) 0 (numbered 17) (new_world Map.empty))))) = [6, 6, 5]"
    unfolding w by (simp add: writes_of_def new_world_def)
  with a b show ?thesis by blast
qed


section \<open>Partition completeness\<close>

text \<open>
  C1. The claim counts every row the scan admits (non-null \<^verbatim>\<open>coin\<close> and
  \<^verbatim>\<open>time\<close>). The code derives the month from \<^verbatim>\<open>date\<close> and means to fall back to
  \<^verbatim>\<open>time\<close> when the date is missing, but the fallback is guarded by the column not
  being of type \<^verbatim>\<open>date32\<close>, which it always is after the normalizer. A row with a
  null \<^verbatim>\<open>date\<close> gets a null month, the null month selects no row, and the row is
  neither written nor counted: the scan admits the one row of the batch below and the
  run returns an empty mapping. With the date filled in, the same row is counted
  under \<^verbatim>\<open>(BTC, 2024-08)\<close>.
\<close>

theorem null_date_row_is_lost:
  "scanner (map fst DEFAULT_SCHEMA) [one_row None] = Inr [one_row None]
   \<and> num_rows (one_row None) = 1
   \<and> fst (split_asset_ctxs_by_coin_month arrow_core (plain_config 1000000 64) True
            [[one_row None]] Map.empty) = Inr []
   \<and> fst (split_asset_ctxs_by_coin_month arrow_core (plain_config 1000000 64) True
            [[one_row (Some (VInt 19936))]] Map.empty)
       = Inr [((Some (VStr ''BTC''), Some ''2024-08''), 1)]"
  by code_simp


section \<open>Invariants of a run\<close>

lemma for_each_preserves:
  assumes step: "\<And>x w r w'. P w \<Longrightarrow> f x w = (r, w') \<Longrightarrow> P w'"
    and "P w" and "for_each f xs w = (r, w')"
  shows "P w'"
  using assms(2,3)
proof (induction xs arbitrary: w)
  case Nil
  then show ?case by simp
next
  case (Cons x xs)
  obtain r1 w1 where f: "f x w = (r1, w1)" by (cases "f x w")
  have p1: "P w1" using step [OF Cons.prems(1) f] .
  show ?case
  proof (cases r1)
    case (Inl e)
    with Cons.prems(2) f have "w' = w1" by simp
    with p1 show ?thesis by simp
  next
    case (Inr u)
    with Cons.prems(2) f have "for_each f xs w1 = (r, w')" by simp
    with Cons.IH p1 show ?thesis by blast
  qed
qed

lemma write_cm_preserves:
  assumes wr: "\<And>h t w. P w \<Longrightarrow> P (write_table h t w)"
    and "P w" and "write_cm cfg h cm w = (r, w')"
  shows "P w'"
proof -
  have fold: "P (foldl (\<lambda>w' s. write_table h (g s) w') w xs)" if "P w" for g xs w
    using that by (induction xs arbitrary: w) (auto intro: wr)
  show ?thesis
    using assms(2,3) fold wr
    by (auto simp: write_cm_def split: if_splits sum.splits)
qed

lemma process_month_preserves:
  assumes wf: "\<And>coin m w r w'. P w \<Longrightarrow> writer_for cfg coin m w = (r, w') \<Longrightarrow> P w'"
    and wr: "\<And>h t w. P w \<Longrightarrow> P (write_table h t w)"
    and cnt: "\<And>w c. P w \<Longrightarrow> P (w\<lparr>counts := c\<rparr>)"
    and p: "P w" and run: "process_month cfg coin c_tbl months m w = (r, w')"
  shows "P w'"
proof -
  let ?cm = "filter_tbl (equal_scalar (=) months m) c_tbl"
  show ?thesis
  proof (cases "num_rows ?cm = 0")
    case True
    with run p show ?thesis by (simp add: process_month_def)
  next
    case False
    obtain r1 w1 where a: "writer_for cfg coin m w = (r1, w1)"
      by (cases "writer_for cfg coin m w")
    have p1: "P w1" using wf [OF p a] .
    show ?thesis
    proof (cases r1)
      case (Inl e)
      with a False run have "w' = w1" by (simp add: process_month_def)
      with p1 show ?thesis by simp
    next
      case (Inr h)
      obtain r2 w2 where b: "write_cm cfg h ?cm w1 = (r2, w2)"
        by (cases "write_cm cfg h ?cm w1")
      have p2: "P w2" using write_cm_preserves [of P, OF wr p1 b] .
      show ?thesis
      proof (cases r2)
        case (Inl e)
        with a b False run Inr have "w' = w2" by (simp add: process_month_def)
        with p2 show ?thesis by simp
      next
        case r2: (Inr u)
        with a b False run Inr
        have "w' = w2\<lparr>counts := add_count (coin, m) (num_rows ?cm) (counts w2)\<rparr>"
          by (simp add: process_month_def)
        with p2 show ?thesis by (simp add: cnt)
      qed
    qed
  qed
qed

lemma process_coin_cases:
  assumes "process_coin lib cfg tbl coin_col coin w = (r, w')"
  shows "w' = w \<or> (\<exists>c_tbl months.
           for_each (process_month cfg coin c_tbl months) (unique months) w = (r, w'))"
  using assms
  by (simp add: process_coin_def Let_def split: if_splits sum.splits) blast+

lemma process_batch_cases:
  assumes "process_batch lib cfg b w = (r, w')"
  shows "w' = w \<or> (\<exists>tbl coin_col.
           for_each (process_coin lib cfg tbl coin_col) (unique (cvals coin_col)) w = (r, w'))"
  using assms
  by (simp add: process_batch_def split: if_splits sum.splits) blast+

lemma process_coin_preserves:
  assumes wf: "\<And>coin m w r w'. P w \<Longrightarrow> writer_for cfg coin m w = (r, w') \<Longrightarrow> P w'"
    and wr: "\<And>h t w. P w \<Longrightarrow> P (write_table h t w)"
    and cnt: "\<And>w c. P w \<Longrightarrow> P (w\<lparr>counts := c\<rparr>)"
    and p: "P w" and run: "process_coin lib cfg tbl coin_col coin w = (r, w')"
  shows "P w'"
proof -
  from process_coin_cases [OF run] show ?thesis
  proof
    assume "w' = w" with p show ?thesis by simp
  next
    assume "\<exists>c_tbl months.
           for_each (process_month cfg coin c_tbl months) (unique months) w = (r, w')"
    then obtain c_tbl months where
      f: "for_each (process_month cfg coin c_tbl months) (unique months) w = (r, w')" by blast
    show ?thesis
      by (rule for_each_preserves [of P, OF _ p f])
         (rule process_month_preserves [of P, OF wf wr cnt])
  qed
qed

lemma process_batch_preserves:
  assumes wf: "\<And>coin m w r w'. P w \<Longrightarrow> writer_for cfg coin m w = (r, w') \<Longrightarrow> P w'"
    and wr: "\<And>h t w. P w \<Longrightarrow> P (write_table h t w)"
    and cnt: "\<And>w c. P w \<Longrightarrow> P (w\<lparr>counts := c\<rparr>)"
    and p: "P w" and run: "process_batch lib cfg b w = (r, w')"
  shows "P w'"
proof -
  from process_batch_cases [OF run] show ?thesis
  proof
    assume "w' = w" with p show ?thesis by simp
  next
    assume "\<exists>tbl coin_col.
           for_each (process_coin lib cfg tbl coin_col) (unique (cvals coin_col)) w = (r, w')"
    then obtain tbl coin_col where
      f: "for_each (process_coin lib cfg tbl coin_col) (unique (cvals coin_col)) w = (r, w')"
      by blast
    show ?thesis
      by (rule for_each_preserves [of P, OF _ p f])
         (rule process_coin_preserves [of P, OF wf wr cnt])
  qed
qed

text \<open>The world in which the \<^verbatim>\<open>finally\<close> block starts satisfies every invariant of the loop.\<close>

lemma split_cases:
  assumes "split_asset_ctxs_by_coin_month lib cfg ex in_files fs = (r, w)"
  obtains (early) "w = new_world fs"
  | (ran) batches r0 w0 where
      "for_each (process_batch lib cfg) batches (new_world fs) = (r0, w0)"
      "w = close_all cfg w0"
  using assms
  by (auto simp: split_asset_ctxs_by_coin_month_def Let_def split: if_splits sum.splits prod.splits)

lemma run_preserves:
  assumes wf: "\<And>coin m w r w'. P w \<Longrightarrow> writer_for cfg coin m w = (r, w') \<Longrightarrow> P w'"
    and wr: "\<And>h t w. P w \<Longrightarrow> P (write_table h t w)"
    and cnt: "\<And>w c. P w \<Longrightarrow> P (w\<lparr>counts := c\<rparr>)"
    and "P w" and "for_each (process_batch lib cfg) batches w = (r, w')"
  shows "P w'"
  by (rule for_each_preserves [of P, OF _ assms(4,5)])
     (rule process_batch_preserves [of P, OF wf wr cnt])


section \<open>The writer pool: open writers, the bound, the cleanup\<close>

lemma writer_for_cases:
  assumes "writer_for cfg coin m w0 = (r, w')"
  obtains (hit) h where "map_of (writers w0) (coin, m) = Some h" "r = Inr h"
      "w' = (request (coin, m) w0)\<lparr>writers := move_to_end (coin, m) (writers w0)\<rparr>"
  | (nopath) e where "map_of (writers w0) (coin, m) = None" "out_path_of cfg (coin, m) = Inl e"
      "r = Inl e" "w' = request (coin, m) w0"
  | (full) p e where "map_of (writers w0) (coin, m) = None" "out_path_of cfg (coin, m) = Inr p"
      "make_room cfg (unlink_existing cfg p (request (coin, m) w0)) = (Inl e, w')" "r = Inl e"
  | (miss) p u w2 where "map_of (writers w0) (coin, m) = None" "out_path_of cfg (coin, m) = Inr p"
      "make_room cfg (unlink_existing cfg p (request (coin, m) w0)) = (Inr u, w2)"
      "open_writer cfg (coin, m) p w2 = (r, w')"
proof -
  have ws: "writers (request (coin, m) w0) = writers w0" by (simp add: request_def)
  show ?thesis
  proof (cases "map_of (writers w0) (coin, m)")
    case (Some h)
    with assms ws show ?thesis by (intro hit [of h]) (auto simp: writer_for_def Let_def)
  next
    case None
    show ?thesis
    proof (cases "out_path_of cfg (coin, m)")
      case (Inl e)
      with assms ws None show ?thesis by (intro nopath [of e]) (auto simp: writer_for_def Let_def)
    next
      case (Inr p)
      obtain r2 w2 where mr: "make_room cfg (unlink_existing cfg p (request (coin, m) w0)) = (r2, w2)"
        by (cases "make_room cfg (unlink_existing cfg p (request (coin, m) w0))")
      show ?thesis
      proof (cases r2)
        case (Inl e)
        with assms ws None Inr mr show ?thesis
          by (intro full [of p e]) (auto simp: writer_for_def Let_def)
      next
        case r2: (Inr u)
        with assms ws None Inr mr show ?thesis
          by (intro miss [of p u w2]) (auto simp: writer_for_def Let_def)
      qed
    qed
  qed
qed

lemma writers_request [simp]: "writers (request key w) = writers w"
  by (simp add: request_def)

lemma writers_unlink [simp]: "writers (unlink_existing cfg p w) = writers w"
  by (simp add: unlink_existing_def)

lemma make_room_writers:
  "make_room cfg w = (r, w') \<Longrightarrow> set (writers w') \<subseteq> set (writers w)"
  by (auto simp: make_room_def evict_lru_def split: if_splits list.splits)

lemma map_of_filter_key:
  "distinct (map fst ws) \<Longrightarrow> map_of ws k = Some h \<Longrightarrow>
   mset ws = add_mset (k, h) (mset (filter (\<lambda>p. fst p \<noteq> k) ws))"
proof (induction ws)
  case Nil
  then show ?case by simp
next
  case (Cons a ws)
  show ?case
  proof (cases "fst a = k")
    case True
    with Cons.prems have "a = (k, h)" by (cases a) simp
    moreover from True Cons.prems have "k \<notin> fst ` set ws" by simp
    then have "filter (\<lambda>p. fst p \<noteq> k) ws = ws" by (auto simp: filter_id_conv)
    ultimately show ?thesis by simp
  next
    case False
    with Cons show ?thesis by simp
  qed
qed


lemma open_handles_snoc: "open_handles (es @ [e]) = step_open (open_handles es) e"
  by (simp add: open_handles_def)

lemma peak_snoc:
  "peak N (es @ [e]) = (peak N es \<and> int (length (open_handles (es @ [e]))) \<le> N)"
proof -
  have "(\<forall>n \<le> Suc (length es). Q n) = ((\<forall>n \<le> length es. Q n) \<and> Q (Suc (length es)))" for Q
    using le_Suc_eq by auto
  then show ?thesis by (simp add: peak_def)
qed

lemma peak_now: "peak N es \<Longrightarrow> int (length (open_handles es)) \<le> N"
  by (auto simp: peak_def dest: spec [of _ "length es"])



lemma live_inv_quiet:
  assumes "live_inv w" and "step_open (open_handles (events w)) e = open_handles (events w)"
  shows "live_inv (w\<lparr>events := events w @ [e]\<rparr>)"
  using assms by (simp add: live_inv_def open_handles_snoc)


lemma live_inv_write: "live_inv w \<Longrightarrow> live_inv (write_table h t w)"
  unfolding write_table_def by (rule live_inv_quiet) (simp_all add: step_open_def)


lemma live_inv_counts: "live_inv w \<Longrightarrow> live_inv (w\<lparr>counts := c\<rparr>)"
  by (simp add: live_inv_def)


lemma live_inv_request: "live_inv w \<Longrightarrow> live_inv (request key w)"
  unfolding request_def by (rule live_inv_quiet) (simp_all add: step_open_def)


lemma live_inv_unlink: "live_inv w \<Longrightarrow> live_inv (unlink_existing cfg p w)"
proof -
  assume i: "live_inv w"
  have "live_inv (w\<lparr>events := events w @ [Unlinked p]\<rparr>)"
    by (rule live_inv_quiet [OF i]) (simp add: step_open_def)
  then have "live_inv (w\<lparr>files := (files w)(p := None), events := events w @ [Unlinked p]\<rparr>)"
    by (simp add: live_inv_def)
  with i show ?thesis by (simp add: unlink_existing_def)
qed


lemma evict_lru_cases:
  assumes "evict_lru cfg w = (r, w')"
  obtains (empty) "writers w = []" "r = Inl KeyError" "w' = w"
  | (evicted) k h rest where "writers w = (k, h) # rest" "r = Inr ()"
      "w' = w\<lparr>writers := rest, events := events w @ [Evicted k h (\<not> close_fails cfg h)]\<rparr>"
  using assms by (auto simp: evict_lru_def split: list.splits)

lemma live_inv_evict:
  assumes "live_inv w" and "evict_lru cfg w = (r, w')"
  shows "live_inv w'"
  using assms(2)
proof (cases rule: evict_lru_cases)
  case empty
  with assms(1) show ?thesis by simp
next
  case (evicted k h rest)
  from assms(1) evicted(1)
  have m: "mset (open_handles (events w)) = add_mset h (mset (map snd rest))"
    and d: "distinct (map fst rest)"
    by (simp_all add: live_inv_def)
  have "mset (remove1 h (open_handles (events w))) = mset (map snd rest)"
    using m by simp
  then show ?thesis
    using d by (simp add: evicted(3) live_inv_def open_handles_snoc step_open_def)
qed


lemma live_inv_make_room:
  "live_inv w \<Longrightarrow> make_room cfg w = (r, w') \<Longrightarrow> live_inv w'"
  by (auto simp: make_room_def dest: live_inv_evict split: if_splits)


lemma open_writer_cases:
  assumes "open_writer cfg key p w = (r, w')"
  obtains (failed) "r = Inl OSError" "w' = w\<lparr>next_handle := Suc (next_handle w)\<rparr>"
  | (opened) "\<not> open_fails cfg (next_handle w)" "r = Inr (next_handle w)"
      "w' = w\<lparr>next_handle := Suc (next_handle w),
               files := (files w)(p \<mapsto> WrittenBy (next_handle w)),
               events := events w @ [Opened key (next_handle w) p],
               writers := writers w @ [(key, next_handle w)]\<rparr>"
  using assms by (auto simp: open_writer_def Let_def split: if_splits)

lemma live_inv_open:
  assumes "live_inv w" and "map_of (writers w) key = None"
    and "open_writer cfg key p w = (r, w')"
  shows "live_inv w'"
  using assms(3)
proof (cases rule: open_writer_cases)
  case failed
  with assms(1) show ?thesis by (simp add: live_inv_def)
next
  case opened
  from assms(2) have "key \<notin> fst ` set (writers w)" by (simp add: map_of_eq_None_iff)
  with assms(1) show ?thesis
    by (simp add: opened(3) live_inv_def open_handles_snoc step_open_def)
qed


lemma live_inv_touch:
  assumes "live_inv w" and "map_of (writers w) key = Some h"
  shows "live_inv (w\<lparr>writers := move_to_end key (writers w)\<rparr>)"
proof -
  from assms(1) have d: "distinct (map fst (writers w))" by (simp add: live_inv_def)
  have m: "mset (move_to_end key (writers w)) = mset (writers w)"
    using map_of_filter_key [OF d assms(2)] assms(2) by (simp add: move_to_end_def)
  have "mset (map snd (move_to_end key (writers w))) = mset (map snd (writers w))"
    using m by (metis mset_map)
  moreover have "distinct (map fst (move_to_end key (writers w)))"
    using d assms(2) by (auto simp: move_to_end_def distinct_map_filter)
  ultimately show ?thesis using assms(1) by (simp add: live_inv_def)
qed

lemma live_inv_writer_for:
  assumes inv: "live_inv w" and run: "writer_for cfg coin m w = (r, w')"
  shows "live_inv w'"
  using run
proof (cases rule: writer_for_cases)
  case (hit h)
  then have "map_of (writers (request (coin, m) w)) (coin, m) = Some h" by simp
  from live_inv_touch [OF live_inv_request [OF inv] this] show ?thesis using hit by simp
next
  case (nopath e)
  then show ?thesis using live_inv_request [OF inv] by simp
next
  case (full p e)
  from live_inv_make_room [OF live_inv_unlink [OF live_inv_request [OF inv]] full(3)]
  show ?thesis .
next
  case (miss p u w2)
  from live_inv_make_room [OF live_inv_unlink [OF live_inv_request [OF inv]] miss(3)]
  have i2: "live_inv w2" .
  have "map_of (writers w2) (coin, m) = None"
    using miss(1) make_room_writers [OF miss(3)] by (auto simp: map_of_eq_None_iff)
  from live_inv_open [OF i2 this miss(4)] show ?thesis .
qed


text \<open>The \<^verbatim>\<open>finally\<close> block closes what is open, one writer after the other.\<close>

lemma close_events:
  "mset (open_handles (es @ map (\<lambda>p. Closed (snd p) (f p)) ws))
     = mset (open_handles es) - mset (map snd ws)
   \<and> (peak N es \<longrightarrow> peak N (es @ map (\<lambda>p. Closed (snd p) (f p)) ws))"
proof (induction ws rule: rev_induct)
  case Nil
  then show ?case by simp
next
  case (snoc x ws)
  let ?es = "es @ map (\<lambda>p. Closed (snd p) (f p)) ws"
  have e: "es @ map (\<lambda>p. Closed (snd p) (f p)) (ws @ [x]) = ?es @ [Closed (snd x) (f x)]"
    by simp
  have oh: "open_handles (es @ map (\<lambda>p. Closed (snd p) (f p)) (ws @ [x]))
              = remove1 (snd x) (open_handles ?es)"
    using open_handles_snoc [of ?es "Closed (snd x) (f x)"] by (simp add: step_open_def)
  have pk: "peak N (es @ map (\<lambda>p. Closed (snd p) (f p)) (ws @ [x]))
              = (peak N ?es \<and> int (length (remove1 (snd x) (open_handles ?es))) \<le> N)"
    using peak_snoc [of N ?es "Closed (snd x) (f x)"]
      open_handles_snoc [of ?es "Closed (snd x) (f x)"] by (simp add: step_open_def)
  have le: "length (remove1 (snd x) (open_handles ?es)) \<le> length (open_handles ?es)"
    by (simp add: length_remove1)
  have 1: "mset (remove1 (snd x) (open_handles ?es))
             = mset (open_handles es) - mset (map snd (ws @ [x]))"
    using snoc by simp
  have 2: "peak N es \<longrightarrow> peak N ?es \<and> int (length (remove1 (snd x) (open_handles ?es))) \<le> N"
    using snoc le by (auto dest: peak_now)
  show ?case unfolding oh pk using 1 2 by blast
qed

lemma live_inv_close_all:
  assumes "live_inv w"
  shows "open_handles (events (close_all cfg w)) = []"
proof -
  have "mset (open_handles (events (close_all cfg w))) = {#}"
    using assms close_events [of "events w" "\<lambda>p. \<not> close_fails cfg (snd p)" "writers w"]
    by (simp add: close_all_def live_inv_def)
  then show ?thesis by simp
qed

lemma live_inv_new: "live_inv (new_world fs)"
  by (simp add: live_inv_def new_world_def open_handles_def)




lemma live_inv_before_finally:
  assumes "for_each (process_batch lib cfg) batches (new_world fs) = (r, w)"
  shows "live_inv w"
proof (rule run_preserves [of live_inv, OF _ _ _ _ assms])
  show "live_inv (new_world fs)" by (rule live_inv_new)
qed (auto intro: live_inv_writer_for live_inv_write live_inv_counts)

text \<open>
  C6. On every exit of the run, whatever it returns (the counts or an error, a data
  error raised by the normalizer included) and whichever writers fail to close: the
  trace ends with an attempt to close each writer of the pool, in the order of the
  pool, and after it no writer that the run has created is left without an attempt to
  close it.
\<close>

theorem close_all_on_every_exit:
  assumes "split_asset_ctxs_by_coin_month lib cfg ex in_files fs = (r, w)"
  shows "open_handles (events w) = []
       \<and> (\<exists>es. events w = es @ map (\<lambda>p. Closed (snd p) (\<not> close_fails cfg (snd p))) (writers w))"
  using assms
proof (cases rule: split_cases)
  case early
  then show ?thesis by (simp add: new_world_def open_handles_def)
next
  case (ran batches r0 w0)
  from live_inv_before_finally [OF ran(1)] have "live_inv w0" .
  then have "open_handles (events w) = []"
    unfolding ran(2) by (rule live_inv_close_all)
  moreover have "events w = events w0
      @ map (\<lambda>p. Closed (snd p) (\<not> close_fails cfg (snd p))) (writers w)"
    by (simp add: ran(2) close_all_def)
  ultimately show ?thesis by blast
qed

theorem close_all_on_every_exit_witness:
  "fst run_data_error = Inl ArrowNotImplementedError
   \<and> map brief_of (events (snd run_data_error))
       = [BRequested ''A'', BOpened ''A'' 0 ''out/A/2024-08.parquet'', BWrote 0 1,
          BRequested ''B'', BOpened ''B'' 1 ''out/B/2024-08.parquet'', BWrote 1 1,
          BRequested ''C'', BOpened ''C'' 2 ''out/C/2024-08.parquet'', BWrote 2 1,
          BClosed 0 False, BClosed 1 True, BClosed 2 True]
   \<and> open_handles (events (snd run_data_error)) = []"
proof -
  have b: "split_asset_ctxs_by_coin_month arrow_core
       ((plain_config 1000000 64)\<lparr>close_fails := (\<lambda>h. h = 0)\<rparr>) True
       [[coin_rows [''A'', ''B'', ''C''] TFloat32 None],
        [coin_rows [''A'', ''B''] TString (Some (VStr ''abc''))]]
       Map.empty = (fst run_data_error, snd run_data_error)"
    by (simp add: run_data_error_def)
  have c: "fst run_data_error = Inl ArrowNotImplementedError" by code_simp
  have d: "map brief_of (events (snd run_data_error))
       = [BRequested ''A'', BOpened ''A'' 0 ''out/A/2024-08.parquet'', BWrote 0 1,
          BRequested ''B'', BOpened ''B'' 1 ''out/B/2024-08.parquet'', BWrote 1 1,
          BRequested ''C'', BOpened ''C'' 2 ''out/C/2024-08.parquet'', BWrote 2 1,
          BClosed 0 False, BClosed 1 True, BClosed 2 True]"
    by code_simp
  from close_all_on_every_exit [OF b] have "open_handles (events (snd run_data_error)) = []"
    by simp
  with c d show ?thesis by blast
qed


section \<open>Least-recently-used eviction\<close>


lemma last_req_snoc:
  "last_req (es @ [e]) k = (if e = Requested k then Suc (length es) else last_req es k)"
  by (simp add: last_req_def)















lemma last_req_unlink [simp]:
  "last_req (events (unlink_existing cfg p w)) k = last_req (events w) k"
  by (simp add: unlink_existing_def last_req_snoc)










section \<open>The pool bound\<close>








section \<open>Invariants that hold until the run fails\<close>

lemma post_Inl [simp]: "post P Q (Inl e) w = Q w"
  by (simp add: post_def)

lemma post_Inr [simp]: "post P Q (Inr u) w = P w"
  by (simp add: post_def)










section \<open>A key that comes back after its eviction\<close>



























end
